theory Spec2Isabelle
  imports Main
begin

section \<open>The edit-client page: data\<close>

text \<open>
  The page \<^verbatim>\<open>src/pages/clients/EditClient.tsx\<close> is a React function component with five
  state cells, one effect (\<^verbatim>\<open>loadData\<close>) and one event handler (\<^verbatim>\<open>handleSubmit\<close>).
  Both are \<^verbatim>\<open>async\<close> functions. Each is modelled as the list of calls it makes, in
  source order, cut at every \<^verbatim>\<open>await\<close>: the piece after an \<^verbatim>\<open>await\<close> is a function of
  the value the promise settled with. The calls are the state setters, \<^verbatim>\<open>toast\<close>,
  \<^verbatim>\<open>navigate\<close>, \<^verbatim>\<open>console.error\<close> and the three requests to the backend.
\<close>

text \<open>
  A JavaScript object: a key is absent, or present with a value, which may be
  \<^verbatim>\<open>undefined\<close>. Reading a property gives \<^verbatim>\<open>undefined\<close> in both of the first two cases,
  but a spread copies a present key whatever its value. \<^verbatim>\<open>Client\<close> (declared outside this
  file) and the \<^verbatim>\<open>data: any\<close> argument of \<^verbatim>\<open>handleSubmit\<close> are such objects.
\<close>

datatype js = Undefined | Str string

type_synonym obj = "string \<rightharpoonup> js"

definition read_prop :: "obj \<Rightarrow> string \<Rightarrow> js" where
  "read_prop ob k = (case ob k of None \<Rightarrow> Undefined | Some v \<Rightarrow> v)"

text \<open>An entry of \<^verbatim>\<open>branches\<close>: \<^verbatim>\<open>{ id: string; name: string }\<close>.\<close>

record branch =
  id_branch :: string
  name_branch :: string

text \<open>
  What \<^verbatim>\<open>fetchClientById\<close>, the branches query and \<^verbatim>\<open>updateClient\<close> resolve to. Only
  the fields the page reads are kept. \<^verbatim>\<open>message\<close> may be \<^verbatim>\<open>undefined\<close> (\<open>None\<close>); the error of
  the branches query is an object, of which only its presence is read.
\<close>

datatype client_result =
  ClientResult (c_success: bool) (c_data: "obj option") (c_message: "string option")

datatype branches_result =
  BranchesResult (b_data: "branch list option") (b_error: "string option")

datatype update_result =
  UpdateResult (u_success: bool) (u_message: "string option")

text \<open>
  A caught value: an \<^verbatim>\<open>Error\<close> instance with its message, or anything else
  (\<^verbatim>\<open>error instanceof Error\<close> is false).
\<close>

datatype thrown = ErrorObject string | OtherValue

text \<open>How an awaited promise settles.\<close>

datatype 'a settled = Fulfilled 'a | Rejected thrown

datatype variant = Default | Warning | Destructive

datatype action =
    SetClient obj
  | SetBranches "branch list"
  | SetIsLoading bool
  | SetIsSubmitting bool
  | SetError "string option"
  | Toast variant string "string option"
  | Navigate string
  | ConsoleError
  | FetchClientById string
  | SelectActiveBranches
  | UpdateClient obj

text \<open>The five \<^verbatim>\<open>useState\<close> cells, with their initial values.\<close>

record ui_state =
  client :: "obj option"
  branches :: "branch list"
  isLoading :: bool
  isSubmitting :: bool
  error :: "string option"

definition initial :: ui_state where
  "initial = \<lparr>client = None, branches = [], isLoading = True, isSubmitting = False,
     error = None\<rparr>"

fun setState :: "action \<Rightarrow> ui_state \<Rightarrow> ui_state" where
  "setState (SetClient c) s = s\<lparr>client := Some c\<rparr>"
| "setState (SetBranches bs) s = s\<lparr>branches := bs\<rparr>"
| "setState (SetIsLoading b) s = s\<lparr>isLoading := b\<rparr>"
| "setState (SetIsSubmitting b) s = s\<lparr>isSubmitting := b\<rparr>"
| "setState (SetError e) s = s\<lparr>error := e\<rparr>"
| "setState (Toast v t d) s = s"
| "setState (Navigate r) s = s"
| "setState ConsoleError s = s"
| "setState (FetchClientById i) s = s"
| "setState SelectActiveBranches s = s"
| "setState (UpdateClient c) s = s"

text \<open>The state after the calls of one piece of code, applied in order.\<close>

definition commit :: "action list \<Rightarrow> ui_state \<Rightarrow> ui_state" where
  "commit as s = fold setState as s"

section \<open>What the page shows\<close>

text \<open>
  The conditional of the \<^verbatim>\<open>CardContent\<close>: \<^verbatim>\<open>isLoading ? .. : error ? .. : client ? .. : null\<close>.
  \<^verbatim>\<open>error\<close> is tested for truthiness: \<^verbatim>\<open>null\<close>, \<^verbatim>\<open>undefined\<close> and the empty string are falsy.
  The form receives \<^verbatim>\<open>isSubmitting\<close>, which tells Ready from Submitting.
\<close>

datatype workflow =
    Loading
  | ErrorState string
  | Ready obj "branch list"
  | Submitting obj "branch list"
  | Blank

definition truthy :: "string option \<Rightarrow> bool" where
  "truthy e = (case e of None \<Rightarrow> False | Some m \<Rightarrow> m \<noteq> [])"

definition render :: "ui_state \<Rightarrow> workflow" where
  "render s =
     (if isLoading s then Loading
      else if truthy (error s) then ErrorState (case error s of None \<Rightarrow> [] | Some m \<Rightarrow> m)
      else (case client s of
              Some c \<Rightarrow> if isSubmitting s then Submitting c (branches s) else Ready c (branches s)
            | None \<Rightarrow> Blank))"

section \<open>loadData\<close>

text \<open>The mock data of the \<^verbatim>\<open>else\<close> branch.\<close>

definition fallback_branches :: "branch list" where
  "fallback_branches =
     [\<lparr>id_branch = ''1'', name_branch = ''Main Branch''\<rparr>,
      \<lparr>id_branch = ''2'', name_branch = ''East Branch''\<rparr>,
      \<lparr>id_branch = ''3'', name_branch = ''West Branch''\<rparr>]"

text \<open>The \<^verbatim>\<open>catch\<close> block followed by the \<^verbatim>\<open>finally\<close> block.\<close>

definition loadData_catch :: "action list" where
  "loadData_catch =
     [SetError (Some ''An unexpected error occurred''), ConsoleError, SetIsLoading False]"

text \<open>Up to the first \<^verbatim>\<open>await\<close>.\<close>

definition loadData_start :: "string \<Rightarrow> action list" where
  "loadData_start i = [SetIsLoading True, SetError None, FetchClientById i]"

text \<open>From the settled \<^verbatim>\<open>fetchClientById\<close> up to the second \<^verbatim>\<open>await\<close>.\<close>

fun loadData_client :: "client_result settled \<Rightarrow> action list" where
  "loadData_client (Fulfilled r) =
     (if c_success r \<and> c_data r \<noteq> None
      then (case c_data r of Some c \<Rightarrow> [SetClient c] | None \<Rightarrow> [])
      else [SetError (c_message r)])
     @ [SelectActiveBranches]"
| "loadData_client (Rejected e) = loadData_catch"

text \<open>From the settled branches query to the end.\<close>

fun loadData_branches :: "branches_result settled \<Rightarrow> action list" where
  "loadData_branches (Fulfilled r) =
     (if b_error r \<noteq> None then loadData_catch
      else (case b_data r of
              Some (b # bs) \<Rightarrow> [SetBranches (b # bs)]
            | _ \<Rightarrow> [SetBranches fallback_branches,
                    Toast Warning ''Using mock branch data''
                      (Some ''No active branches found in the database'')])
           @ [SetIsLoading False])"
| "loadData_branches (Rejected e) = loadData_catch"

text \<open>
  The whole run, given what the two requests settle with. The branches query is made
  only when \<^verbatim>\<open>fetchClientById\<close> did not reject.
\<close>

definition loadData :: "string \<Rightarrow> client_result settled \<Rightarrow> branches_result settled \<Rightarrow> action list" where
  "loadData i cres bres =
     loadData_start i @ loadData_client cres @
     (case cres of Fulfilled r \<Rightarrow> loadData_branches bres | Rejected e \<Rightarrow> [])"

text \<open>The effect: \<^verbatim>\<open>if (id) loadData()\<close>, with \<^verbatim>\<open>id\<close> from \<^verbatim>\<open>useParams\<close>.\<close>

definition useEffect :: "string option \<Rightarrow> action list" where
  "useEffect i = (case i of None \<Rightarrow> [] | Some v \<Rightarrow> if v \<noteq> [] then loadData_start v else [])"

section \<open>handleSubmit\<close>

definition handleSubmit_catch :: "thrown \<Rightarrow> action list" where
  "handleSubmit_catch e =
     [ConsoleError, SetIsSubmitting False,
      Toast Destructive ''Error updating client''
        (Some (case e of ErrorObject m \<Rightarrow> m | OtherValue \<Rightarrow> ''An unexpected error occurred''))]"

text \<open>
  Up to the \<^verbatim>\<open>await\<close>. The handler closes over \<^verbatim>\<open>client\<close> and \<^verbatim>\<open>branches\<close> of the current
  state. The record sent is \<^verbatim>\<open>{...client, ...data, dateOfBirth: data.dateOfBirth}\<close>: the
  keys of \<^verbatim>\<open>data\<close> win over those of \<^verbatim>\<open>client\<close>, and \<^verbatim>\<open>dateOfBirth\<close> is always present.
\<close>

definition handleSubmit :: "ui_state \<Rightarrow> obj \<Rightarrow> action list" where
  "handleSubmit s data =
     (case client s of
        None \<Rightarrow> []
      | Some c \<Rightarrow>
          SetIsSubmitting True #
          (if \<not> list_ex (\<lambda>b. Str (id_branch b) = read_prop data ''branchId'') (branches s)
           then handleSubmit_catch (ErrorObject ''Selected branch does not exist'')
           else [UpdateClient
                   ((c ++ data)(''dateOfBirth'' \<mapsto> read_prop data ''dateOfBirth''))]))"

text \<open>From the settled \<^verbatim>\<open>updateClient\<close> to the end.\<close>

fun handleSubmit_settled :: "update_result settled \<Rightarrow> action list" where
  "handleSubmit_settled (Fulfilled r) =
     SetIsSubmitting False #
     (if u_success r
      then [Toast Default ''Client updated'' (Some ''The client has been updated successfully''),
            Navigate ''/clients'']
      else [Toast Destructive ''Error updating client'' (u_message r)])"
| "handleSubmit_settled (Rejected e) = handleSubmit_catch e"

section \<open>Observations on a list of calls\<close>

fun is_toast :: "action \<Rightarrow> bool" where
  "is_toast (Toast v t d) = True"
| "is_toast a = False"

fun is_navigate :: "action \<Rightarrow> bool" where
  "is_navigate (Navigate r) = True"
| "is_navigate a = False"

fun is_update :: "action \<Rightarrow> bool" where
  "is_update (UpdateClient c) = True"
| "is_update a = False"

definition toasts :: "action list \<Rightarrow> action list" where
  "toasts as = filter is_toast as"

definition navigations :: "action list \<Rightarrow> action list" where
  "navigations as = filter is_navigate as"

definition update_calls :: "action list \<Rightarrow> action list" where
  "update_calls as = filter is_update as"

section \<open>Outcomes of the two fetches\<close>

text \<open>
  The record fetch fails when the promise rejects or the page takes the \<^verbatim>\<open>else\<close> branch of
  \<^verbatim>\<open>clientResult.success && clientResult.data\<close>.
\<close>

definition record_fetch_failed :: "client_result settled \<Rightarrow> bool" where
  "record_fetch_failed cres =
     (case cres of Fulfilled r \<Rightarrow> \<not> (c_success r \<and> c_data r \<noteq> None) | Rejected e \<Rightarrow> True)"

text \<open>The message of a failed fetch is one the page displays: it is a non-empty string.\<close>

definition failure_message_truthy :: "client_result settled \<Rightarrow> bool" where
  "failure_message_truthy cres =
     (case cres of Fulfilled r \<Rightarrow> truthy (c_message r) | Rejected e \<Rightarrow> True)"

text \<open>The branches query fails when it rejects or resolves with an \<^verbatim>\<open>error\<close>.\<close>

definition branches_fetch_failed :: "branches_result settled \<Rightarrow> bool" where
  "branches_fetch_failed bres =
     (case bres of Fulfilled b \<Rightarrow> b_error b \<noteq> None | Rejected e \<Rightarrow> True)"

text \<open>It succeeds with nothing when there is no \<^verbatim>\<open>error\<close> and no row.\<close>

definition branches_fetch_empty :: "branches_result settled \<Rightarrow> bool" where
  "branches_fetch_empty bres =
     (case bres of
        Fulfilled b \<Rightarrow> b_error b = None \<and> (case b_data b of None \<Rightarrow> True | Some bs \<Rightarrow> bs = [])
      | Rejected e \<Rightarrow> False)"

text \<open>Membership of a submitted \<^verbatim>\<open>branchId\<close> in a reference set, by id.\<close>

definition is_member :: "js \<Rightarrow> branch list \<Rightarrow> bool" where
  "is_member v bs = (v \<in> Str ` id_branch ` set bs)"

section \<open>The mounted page and its events\<close>

text \<open>
  A mounted page holds its state and the requests whose promises have not settled yet.
  An event runs one piece of code: the effect, the submit handler, or the continuation
  of a settled request. None of them tests whether the page is still mounted, and the
  effect returns no cleanup function, so unmounting runs no code of the page.

  The page is gone once it is unmounted, or once its own code has called
  \<^verbatim>\<open>navigate\<close>: the route changes and the page is unmounted in the same batch of updates
  as the setter calls made beside it. The setter calls of a page that is gone change
  nothing. Promises still settle afterwards, and their continuations still run.
\<close>

datatype request = ClientRequest | BranchesRequest | UpdateRequest

fun issued_by :: "action \<Rightarrow> request list" where
  "issued_by (FetchClientById i) = [ClientRequest]"
| "issued_by SelectActiveBranches = [BranchesRequest]"
| "issued_by (UpdateClient c) = [UpdateRequest]"
| "issued_by a = []"

definition issued :: "action list \<Rightarrow> request list" where
  "issued as = concat (map issued_by as)"

datatype event =
    Effect "string option"
  | Submit obj
  | ClientSettled "client_result settled"
  | BranchesSettled "branches_result settled"
  | UpdateSettled "update_result settled"
  | Unmount

record page =
  ui :: ui_state
  awaiting :: "request list"
  disposed :: bool

definition mounted :: page where
  "mounted = \<lparr>ui = initial, awaiting = [], disposed = False\<rparr>"

fun react :: "event \<Rightarrow> page \<Rightarrow> action list" where
  "react (Effect i) n = useEffect i"
| "react (Submit d) n = handleSubmit (ui n) d"
| "react (ClientSettled r) n =
     (if ClientRequest \<in> set (awaiting n) then loadData_client r else [])"
| "react (BranchesSettled r) n =
     (if BranchesRequest \<in> set (awaiting n) then loadData_branches r else [])"
| "react (UpdateSettled r) n =
     (if UpdateRequest \<in> set (awaiting n) then handleSubmit_settled r else [])"
| "react Unmount n = []"

fun settles :: "event \<Rightarrow> request list" where
  "settles (ClientSettled r) = [ClientRequest]"
| "settles (BranchesSettled r) = [BranchesRequest]"
| "settles (UpdateSettled r) = [UpdateRequest]"
| "settles e = []"

fun disposes :: "event \<Rightarrow> bool" where
  "disposes Unmount = True"
| "disposes e = False"

definition leaves :: "action list \<Rightarrow> bool" where
  "leaves as = list_ex is_navigate as"

definition gone :: "event \<Rightarrow> page \<Rightarrow> bool" where
  "gone e n = (disposed n \<or> disposes e \<or> leaves (react e n))"

definition step :: "event \<Rightarrow> page \<Rightarrow> page" where
  "step e n =
     \<lparr>ui = (if gone e n then ui n else commit (react e n) (ui n)),
      awaiting = fold remove1 (settles e) (awaiting n) @ issued (react e n),
      disposed = gone e n\<rparr>"

text \<open>The page after a sequence of events, and every call made along the way.\<close>

definition after :: "event list \<Rightarrow> page \<Rightarrow> page" where
  "after es n = fold step es n"

fun trace :: "event list \<Rightarrow> page \<Rightarrow> action list" where
  "trace [] n = []"
| "trace (e # es) n = react e n @ trace es (step e n)"

section \<open>A scenario\<close>

text \<open>
  Client 42 belongs to branch 9, which is no longer among the active branches 1 and 2;
  the user moves the client to branch 1.
\<close>

definition scenario_client :: obj where
  "scenario_client = [''id'' \<mapsto> Str ''42'', ''branchId'' \<mapsto> Str ''9'']"

definition scenario_branches :: "branch list" where
  "scenario_branches =
     [\<lparr>id_branch = ''1'', name_branch = ''North''\<rparr>, \<lparr>id_branch = ''2'', name_branch = ''South''\<rparr>]"

definition scenario_edit :: obj where
  "scenario_edit = [''branchId'' \<mapsto> Str ''1'']"

definition scenario_ready :: ui_state where
  "scenario_ready =
     \<lparr>client = Some scenario_client, branches = scenario_branches, isLoading = False,
      isSubmitting = False, error = None\<rparr>"

definition scenario_load :: "event list" where
  "scenario_load =
     [Effect (Some ''42''),
      ClientSettled (Fulfilled (ClientResult True (Some scenario_client) None)),
      BranchesSettled (Fulfilled (BranchesResult (Some scenario_branches) None))]"

section \<open>Basic facts\<close>

lemma commit_Nil: "commit [] s = s"
  by (simp add: commit_def)

lemma commit_Cons: "commit (a # as) s = commit as (setState a s)"
  by (simp add: commit_def)

lemma commit_append: "commit (as @ bs) s = commit bs (commit as s)"
  by (simp add: commit_def)

lemmas commit_simps = commit_Nil commit_Cons commit_append

lemma list_ex_member: "list_ex (\<lambda>b. Str (id_branch b) = v) bs = is_member v bs"
  by (auto simp: list_ex_iff is_member_def)

lemma isLoading_after_branches: "isLoading (commit (loadData_branches bres) s) = False"
  by (cases bres)
     (auto simp: loadData_catch_def commit_simps split: option.splits list.splits)

lemma error_after_branches:
  "truthy (error s) \<Longrightarrow> truthy (error (commit (loadData_branches bres) s))"
  by (cases bres)
     (auto simp: loadData_catch_def commit_simps truthy_def split: option.splits list.splits)

lemma navigations_loadData: "navigations (loadData i cres bres) = []"
  by (cases cres; cases bres)
     (auto simp: navigations_def loadData_def loadData_start_def loadData_catch_def
        split: option.splits list.splits)

lemma render_ErrorState:
  "\<not> isLoading s \<Longrightarrow> truthy (error s) \<Longrightarrow> \<exists>m. render s = ErrorState m"
  by (simp add: render_def)

text \<open>
  On a freshly mounted page, the effect and the two results in turn make exactly the
  calls of \<open>loadData\<close>; a branches result has no continuation to run when the record
  request was rejected.
\<close>

lemma trace_loadData:
  assumes "i \<noteq> []"
  shows "trace [Effect (Some i), ClientSettled cres, BranchesSettled bres] mounted
           = loadData i cres bres"
proof (cases cres)
  case (Fulfilled r)
  have "BranchesRequest \<in> set (awaiting (step (ClientSettled (Fulfilled r))
      (step (Effect (Some i)) mounted)))"
    using assms
    by (simp add: step_def gone_def leaves_def mounted_def useEffect_def loadData_start_def issued_def)
  then show ?thesis
    using assms Fulfilled
    by (simp add: loadData_def useEffect_def mounted_def step_def gone_def leaves_def loadData_start_def issued_def
        del: loadData_client.simps loadData_branches.simps)
next
  case (Rejected e)
  have "BranchesRequest \<notin> set (awaiting (step (ClientSettled (Rejected e))
      (step (Effect (Some i)) mounted)))"
    using assms
    by (simp add: step_def gone_def leaves_def mounted_def useEffect_def loadData_start_def loadData_catch_def
        issued_def)
  then show ?thesis
    using assms Rejected
    by (simp add: loadData_def useEffect_def mounted_def step_def gone_def leaves_def loadData_start_def issued_def
        del: loadData_client.simps loadData_branches.simps)
qed

text \<open>The load navigates nowhere, so a load on a mounted page keeps it mounted.\<close>

lemma leaves_loadData_start: "\<not> leaves (loadData_start i)"
  by (simp add: leaves_def loadData_start_def)

lemma leaves_loadData_client: "\<not> leaves (loadData_client cres)"
  by (cases cres) (auto simp: leaves_def loadData_catch_def split: option.splits)

lemma leaves_loadData_branches: "\<not> leaves (loadData_branches bres)"
  by (cases bres) (auto simp: leaves_def loadData_catch_def split: option.splits list.splits)

lemma issued_loadData_client:
  "issued (loadData_client cres)
     = (case cres of Fulfilled r \<Rightarrow> [BranchesRequest] | Rejected e \<Rightarrow> [])"
  by (cases cres) (auto simp: issued_def loadData_catch_def split: option.splits)

lemma after_loadData:
  assumes "i \<noteq> []"
  shows "ui (after [Effect (Some i), ClientSettled cres, BranchesSettled bres] mounted)
           = commit (loadData i cres bres) initial"
proof -
  let ?n1 = "step (Effect (Some i)) mounted"
  let ?n2 = "step (ClientSettled cres) ?n1"
  let ?s2 = "commit (loadData_client cres) (commit (loadData_start i) initial)"
  have n1: "?n1 = \<lparr>ui = commit (loadData_start i) initial, awaiting = [ClientRequest],
      disposed = False\<rparr>"
    using assms leaves_loadData_start [of i]
    by (simp add: step_def gone_def useEffect_def mounted_def)
       (simp add: issued_def loadData_start_def)
  have n2: "?n2 = \<lparr>ui = ?s2, awaiting = issued (loadData_client cres), disposed = False\<rparr>"
    unfolding n1 using leaves_loadData_client [of cres] by (simp add: step_def gone_def)
  have split: "after [Effect (Some i), ClientSettled cres, BranchesSettled bres] mounted
      = step (BranchesSettled bres) ?n2"
    by (simp add: after_def)
  show ?thesis
  proof (cases cres)
    case (Fulfilled r)
    have "issued (loadData_client cres) = [BranchesRequest]"
      by (simp add: issued_loadData_client Fulfilled del: loadData_client.simps)
    then have e: "?n2 = \<lparr>ui = ?s2, awaiting = [BranchesRequest], disposed = False\<rparr>"
      by (simp only: n2)
    have "ui (step (BranchesSettled bres) ?n2) = commit (loadData_branches bres) ?s2"
      unfolding e using leaves_loadData_branches [of bres] by (simp add: step_def gone_def)
    moreover have "loadData i cres bres
        = (loadData_start i @ loadData_client cres) @ loadData_branches bres"
      by (simp add: loadData_def Fulfilled del: loadData_client.simps)
    ultimately show ?thesis
      by (simp only: split commit_append)
  next
    case (Rejected e)
    have "issued (loadData_client cres) = []"
      by (simp add: issued_loadData_client Rejected del: loadData_client.simps)
    then have e: "?n2 = \<lparr>ui = ?s2, awaiting = [], disposed = False\<rparr>"
      by (simp only: n2)
    have "ui (step (BranchesSettled bres) ?n2) = ?s2"
      unfolding e by (simp add: step_def gone_def leaves_def commit_Nil)
    moreover have "loadData i cres bres = loadData_start i @ loadData_client cres"
      by (simp add: loadData_def Rejected del: loadData_client.simps)
    ultimately show ?thesis
      by (simp only: split commit_append)
  qed
qed

text \<open>Once a page is gone, no event changes its state.\<close>

lemma after_disposed:
  "disposed n \<Longrightarrow> ui (after es n) = ui n"
proof (induction es arbitrary: n)
  case Nil
  show ?case by (simp add: after_def)
next
  case (Cons e es)
  have "disposed (step e n)" and "ui (step e n) = ui n"
    using Cons.prems by (simp_all add: step_def gone_def)
  moreover have "after (e # es) n = after es (step e n)"
    by (simp add: after_def)
  ultimately show ?case
    using Cons.IH [of "step e n"] by simp
qed

text \<open>The scenario's load ends in Ready, and a submit from there awaits the update.\<close>

lemma after_scenario_load:
  "after scenario_load mounted = \<lparr>ui = scenario_ready, awaiting = [], disposed = False\<rparr>"
  by (simp add: after_def scenario_load_def mounted_def initial_def step_def gone_def leaves_def useEffect_def
      loadData_start_def issued_def commit_simps scenario_ready_def scenario_branches_def)

lemma after_scenario_submit:
  "after (scenario_load @ [Submit scenario_edit]) mounted
     = \<lparr>ui = scenario_ready\<lparr>isSubmitting := True\<rparr>, awaiting = [UpdateRequest], disposed = False\<rparr>"
proof -
  have "after (scenario_load @ [Submit scenario_edit]) mounted
      = step (Submit scenario_edit) (after scenario_load mounted)"
    by (simp add: after_def)
  then show ?thesis
    by (simp add: after_scenario_load step_def gone_def leaves_def handleSubmit_def
        read_prop_def scenario_ready_def
        scenario_branches_def scenario_edit_def issued_def commit_simps)
qed

section \<open>Loading\<close>

text \<open>
  C1. A record fetch that fails is to end the load in the Error state, without
  navigation, whatever the branches query settles with. The page does not do so for a
  failure whose message is the empty string: line 36 stores the message in the error
  cell, the cell is falsy, and the page shows neither the error panel nor the form. The
  sibling path, a rejected fetch caught at line 64 with a literal message, does reach
  the Error state.
\<close>

theorem loadData_record_failure_empty_message:
  "record_fetch_failed (Fulfilled (ClientResult False None (Some '''')))
   \<and> render (commit (loadData ''7''
         (Fulfilled (ClientResult False None (Some '''')))
         (Fulfilled (BranchesResult (Some scenario_branches) None))) initial)
     = Blank
   \<and> render (commit (loadData ''7''
         (Rejected OtherValue)
         (Fulfilled (BranchesResult (Some scenario_branches) None))) initial)
     = ErrorState ''An unexpected error occurred''"
  by (simp add: record_fetch_failed_def loadData_def loadData_start_def loadData_catch_def
      commit_simps initial_def render_def truthy_def scenario_branches_def)

text \<open>
  Away from that case the page does what is asked: when the record fetch fails and the
  failure's message is a non-empty string, or the promise rejects, the load ends in the
  Error state and never navigates, whatever the branches query settles with and whatever
  the state before.
\<close>

lemma loadData_record_failure:
  assumes "record_fetch_failed cres" and "failure_message_truthy cres"
  shows "(\<exists>m. render (commit (loadData i cres bres) s) = ErrorState m)
         \<and> navigations (loadData i cres bres) = []"
proof (cases cres)
  case (Fulfilled r)
  with assms have f: "\<not> (c_success r \<and> c_data r \<noteq> None)" and t: "truthy (c_message r)"
    by (auto simp: record_fetch_failed_def failure_message_truthy_def)
  let ?s1 = "commit (loadData_start i @ loadData_client cres) s"
  have "truthy (error ?s1)"
    using f t Fulfilled by (auto simp: loadData_start_def commit_simps)
  then have "truthy (error (commit (loadData_branches bres) ?s1))"
    by (rule error_after_branches)
  moreover have "\<not> isLoading (commit (loadData_branches bres) ?s1)"
    by (simp add: isLoading_after_branches)
  ultimately have "\<exists>m. render (commit (loadData_branches bres) ?s1) = ErrorState m"
    by (simp add: render_ErrorState)
  moreover have "commit (loadData i cres bres) s = commit (loadData_branches bres) ?s1"
    using Fulfilled by (simp add: loadData_def commit_append del: loadData_client.simps)
  ultimately show ?thesis
    by (simp add: navigations_loadData)
next
  case (Rejected e)
  then have "render (commit (loadData i cres bres) s) = ErrorState ''An unexpected error occurred''"
    by (simp add: loadData_def loadData_start_def loadData_catch_def commit_simps
        render_def truthy_def)
  then show ?thesis
    by (simp add: navigations_loadData)
qed

text \<open>
  C4. When the record fetch succeeds and the branches query succeeds with no row, the
  load reaches Ready with the three fallback branches (ids 1, 2, 3; Main, East and West
  Branch) and shows exactly one notification, a warning.
\<close>

theorem loadData_empty_branches:
  assumes "cres = Fulfilled r" and "c_success r" and "c_data r = Some c"
    and "branches_fetch_empty bres" and "\<not> isSubmitting s"
  shows "render (commit (loadData i cres bres) s)
           = Ready c [\<lparr>id_branch = ''1'', name_branch = ''Main Branch''\<rparr>,
                      \<lparr>id_branch = ''2'', name_branch = ''East Branch''\<rparr>,
                      \<lparr>id_branch = ''3'', name_branch = ''West Branch''\<rparr>]
         \<and> toasts (loadData i cres bres)
             = [Toast Warning ''Using mock branch data''
                  (Some ''No active branches found in the database'')]"
proof -
  from assms(4) obtain b where b: "bres = Fulfilled b" "b_error b = None"
      "b_data b = None \<or> b_data b = Some []"
    by (auto simp: branches_fetch_empty_def split: settled.splits option.splits)
  have run: "loadData i cres bres =
      [SetIsLoading True, SetError None, FetchClientById i, SetClient c, SelectActiveBranches,
       SetBranches fallback_branches,
       Toast Warning ''Using mock branch data'' (Some ''No active branches found in the database''),
       SetIsLoading False]"
    using assms(1-3) b by (auto simp: loadData_def loadData_start_def)
  have "render (commit (loadData i cres bres) s) = Ready c fallback_branches"
    using assms(5) by (simp add: run commit_simps render_def truthy_def)
  then show ?thesis
    by (simp add: run toasts_def fallback_branches_def)
qed

theorem loadData_empty_branches_witness:
  "c_success (ClientResult True (Some scenario_client) None)
   \<and> c_data (ClientResult True (Some scenario_client) None) = Some scenario_client
   \<and> branches_fetch_empty (Fulfilled (BranchesResult (Some []) None))
   \<and> \<not> isSubmitting initial
   \<and> render (commit (loadData ''42'' (Fulfilled (ClientResult True (Some scenario_client) None))
         (Fulfilled (BranchesResult (Some []) None))) initial)
       = Ready scenario_client
           [\<lparr>id_branch = ''1'', name_branch = ''Main Branch''\<rparr>,
            \<lparr>id_branch = ''2'', name_branch = ''East Branch''\<rparr>,
            \<lparr>id_branch = ''3'', name_branch = ''West Branch''\<rparr>]
   \<and> toasts (loadData ''42'' (Fulfilled (ClientResult True (Some scenario_client) None))
         (Fulfilled (BranchesResult (Some []) None)))
       = [Toast Warning ''Using mock branch data''
            (Some ''No active branches found in the database'')]"
proof -
  have h2: "c_success (ClientResult True (Some scenario_client) None)" by simp
  have h3: "c_data (ClientResult True (Some scenario_client) None) = Some scenario_client"
    by simp
  have h4: "branches_fetch_empty (Fulfilled (BranchesResult (Some []) None))"
    by (simp add: branches_fetch_empty_def)
  have h5: "\<not> isSubmitting initial" by (simp add: initial_def)
  show ?thesis
    using h2 h3 h4 h5 loadData_empty_branches [OF refl h2 h3 h4 h5] by blast
qed

text \<open>
  C5. When the record fetch succeeds and the branches query fails (it rejects, or it
  resolves with an error), the load ends in the Error state; the branches are left as
  they were, so the fallback is not used, and no notification is shown.
\<close>

theorem loadData_branches_failure:
  assumes "cres = Fulfilled r" and "c_success r" and "c_data r = Some c"
    and "branches_fetch_failed bres"
  shows "render (commit (loadData i cres bres) s) = ErrorState ''An unexpected error occurred''
         \<and> branches (commit (loadData i cres bres) s) = branches s
         \<and> toasts (loadData i cres bres) = []"
proof -
  have tail: "loadData_branches bres = loadData_catch"
    using assms(4) by (cases bres) (auto simp: branches_fetch_failed_def)
  have run: "loadData i cres bres =
      [SetIsLoading True, SetError None, FetchClientById i, SetClient c, SelectActiveBranches,
       SetError (Some ''An unexpected error occurred''), ConsoleError, SetIsLoading False]"
    using assms(1-3) by (simp add: loadData_def loadData_start_def tail loadData_catch_def)
  show ?thesis
    by (simp add: run commit_simps render_def truthy_def toasts_def)
qed

theorem loadData_branches_failure_witness:
  "c_success (ClientResult True (Some scenario_client) None)
   \<and> c_data (ClientResult True (Some scenario_client) None) = Some scenario_client
   \<and> branches_fetch_failed (Fulfilled (BranchesResult None (Some ''connection refused'')))
   \<and> render (commit (loadData ''42'' (Fulfilled (ClientResult True (Some scenario_client) None))
         (Fulfilled (BranchesResult None (Some ''connection refused'')))) initial)
       = ErrorState ''An unexpected error occurred''
   \<and> branches (commit (loadData ''42'' (Fulfilled (ClientResult True (Some scenario_client) None))
         (Fulfilled (BranchesResult None (Some ''connection refused'')))) initial)
       = branches initial
   \<and> toasts (loadData ''42'' (Fulfilled (ClientResult True (Some scenario_client) None))
         (Fulfilled (BranchesResult None (Some ''connection refused'')))) = []"
proof -
  have h2: "c_success (ClientResult True (Some scenario_client) None)" by simp
  have h3: "c_data (ClientResult True (Some scenario_client) None) = Some scenario_client"
    by simp
  have h4: "branches_fetch_failed (Fulfilled (BranchesResult None (Some ''connection refused'')))"
    by (simp add: branches_fetch_failed_def)
  show ?thesis
    using h2 h3 h4 loadData_branches_failure [OF refl h2 h3 h4] by blast
qed

text \<open>
  C7. A load whose two fetches succeed reaches Ready with the record as fetched, whether
  or not the record's own \<^verbatim>\<open>branchId\<close> is among the loaded branches: nothing in the load
  reads it. A submit from there whose \<^verbatim>\<open>branchId\<close> is among the loaded branches passes the
  check and calls the update with the merged record.
\<close>

theorem loadData_stale_branch_then_submit:
  assumes "cres = Fulfilled r" and "c_success r" and "c_data r = Some c"
    and "bres = Fulfilled b" and "b_error b = None" and "b_data b = Some bs" and "bs \<noteq> []"
    and "\<not> isSubmitting s"
    and "is_member (read_prop data ''branchId'') bs"
  shows "render (commit (loadData i cres bres) s) = Ready c bs
         \<and> handleSubmit (commit (loadData i cres bres) s) data
             = [SetIsSubmitting True,
                UpdateClient ((c ++ data)(''dateOfBirth'' \<mapsto> read_prop data ''dateOfBirth''))]"
proof -
  obtain x xs where bs: "bs = x # xs"
    using assms(7) by (cases bs) auto
  have run: "loadData i cres bres =
      [SetIsLoading True, SetError None, FetchClientById i, SetClient c, SelectActiveBranches,
       SetBranches bs, SetIsLoading False]"
    using assms(1-6) bs by (simp add: loadData_def loadData_start_def)
  let ?s = "commit (loadData i cres bres) s"
  have st: "client ?s = Some c" "branches ?s = bs" "\<not> isLoading ?s" "error ?s = None"
      "\<not> isSubmitting ?s"
    using assms(8) by (simp_all add: run commit_simps)
  have "render ?s = Ready c bs"
    using st by (simp add: render_def truthy_def)
  moreover have "handleSubmit ?s data
      = [SetIsSubmitting True, UpdateClient ((c ++ data)(''dateOfBirth'' \<mapsto> read_prop data ''dateOfBirth''))]"
    using st assms(9) by (simp add: handleSubmit_def list_ex_member)
  ultimately show ?thesis by simp
qed

theorem loadData_stale_branch_then_submit_witness:
  "\<not> is_member (read_prop scenario_client ''branchId'') scenario_branches
   \<and> c_success (ClientResult True (Some scenario_client) None)
   \<and> c_data (ClientResult True (Some scenario_client) None) = Some scenario_client
   \<and> b_error (BranchesResult (Some scenario_branches) None) = None
   \<and> b_data (BranchesResult (Some scenario_branches) None) = Some scenario_branches
   \<and> scenario_branches \<noteq> []
   \<and> \<not> isSubmitting initial
   \<and> is_member (read_prop scenario_edit ''branchId'') scenario_branches
   \<and> render (commit (loadData ''42'' (Fulfilled (ClientResult True (Some scenario_client) None))
         (Fulfilled (BranchesResult (Some scenario_branches) None))) initial)
       = Ready scenario_client scenario_branches
   \<and> handleSubmit (commit (loadData ''42'' (Fulfilled (ClientResult True (Some scenario_client) None))
         (Fulfilled (BranchesResult (Some scenario_branches) None))) initial) scenario_edit
       = [SetIsSubmitting True,
          UpdateClient ((scenario_client ++ scenario_edit)
            (''dateOfBirth'' \<mapsto> read_prop scenario_edit ''dateOfBirth''))]"
proof -
  have h0: "\<not> is_member (read_prop scenario_client ''branchId'') scenario_branches"
    by (simp add: is_member_def read_prop_def scenario_client_def scenario_branches_def)
  have h2: "c_success (ClientResult True (Some scenario_client) None)" by simp
  have h3: "c_data (ClientResult True (Some scenario_client) None) = Some scenario_client"
    by simp
  have h5: "b_error (BranchesResult (Some scenario_branches) None) = None" by simp
  have h6: "b_data (BranchesResult (Some scenario_branches) None) = Some scenario_branches"
    by simp
  have h7: "scenario_branches \<noteq> []" by (simp add: scenario_branches_def)
  have h8: "\<not> isSubmitting initial" by (simp add: initial_def)
  have h9: "is_member (read_prop scenario_edit ''branchId'') scenario_branches"
    by (simp add: is_member_def read_prop_def scenario_edit_def scenario_branches_def)
  show ?thesis
    using h0 h2 h3 h5 h6 h7 h8 h9
      loadData_stale_branch_then_submit [where data = scenario_edit and i = "''42''",
        OF refl h2 h3 refl h5 h6 h7 h8 h9]
    by blast
qed

text \<open>
  C9, as amended. On a freshly mounted page with a non-empty identifier the two requests
  are made one after the other. The effect makes the record request alone and stops at
  its \<^verbatim>\<open>await\<close>; a branches result arriving then has no continuation to run. The branches
  query is made by the code that runs once the record request has resolved, and is not
  made at all when it rejects; the code after the branches query makes no request. So
  the results can only arrive in that order, and the calls made and the state reached
  are those of \<open>loadData\<close>, a function of what the two requests settle with.
\<close>

theorem loadData_requests_in_sequence:
  assumes "i \<noteq> []"
  shows "issued (loadData_start i) = [ClientRequest]
   \<and> awaiting (step (Effect (Some i)) mounted) = [ClientRequest]
   \<and> react (BranchesSettled bres) (step (Effect (Some i)) mounted) = []
   \<and> issued (loadData_client (Fulfilled r)) = [BranchesRequest]
   \<and> issued (loadData_client (Rejected e)) = []
   \<and> issued (loadData_branches bres) = []
   \<and> trace [Effect (Some i), ClientSettled cres, BranchesSettled bres] mounted
       = loadData i cres bres
   \<and> ui (after [Effect (Some i), ClientSettled cres, BranchesSettled bres] mounted)
       = commit (loadData i cres bres) initial"
proof -
  have a: "awaiting (step (Effect (Some i)) mounted) = [ClientRequest]"
    using assms
    by (simp add: step_def mounted_def useEffect_def loadData_start_def issued_def)
  have "issued (loadData_start i) = [ClientRequest]"
    by (simp add: issued_def loadData_start_def)
  moreover have "react (BranchesSettled bres) (step (Effect (Some i)) mounted) = []"
    by (simp add: a)
  moreover have "issued (loadData_client (Fulfilled r)) = [BranchesRequest]"
    and "issued (loadData_client (Rejected e)) = []"
    using issued_loadData_client [of "Fulfilled r"] issued_loadData_client [of "Rejected e"]
    by (simp_all del: loadData_client.simps)
  moreover have "issued (loadData_branches bres) = []"
    by (cases bres)
       (auto simp: issued_def loadData_catch_def split: option.splits list.splits)
  ultimately show ?thesis
    using a trace_loadData [OF assms] after_loadData [OF assms] by simp
qed

theorem loadData_requests_in_sequence_witness:
  "''42'' \<noteq> []
   \<and> awaiting (step (Effect (Some ''42'')) mounted) = [ClientRequest]
   \<and> react (BranchesSettled (Fulfilled (BranchesResult (Some scenario_branches) None)))
        (step (Effect (Some ''42'')) mounted) = []
   \<and> trace [Effect (Some ''42''),
        ClientSettled (Fulfilled (ClientResult True (Some scenario_client) None)),
        BranchesSettled (Fulfilled (BranchesResult (Some scenario_branches) None))] mounted
       = loadData ''42'' (Fulfilled (ClientResult True (Some scenario_client) None))
           (Fulfilled (BranchesResult (Some scenario_branches) None))
   \<and> ui (after [Effect (Some ''42''),
        ClientSettled (Fulfilled (ClientResult True (Some scenario_client) None)),
        BranchesSettled (Fulfilled (BranchesResult (Some scenario_branches) None))] mounted)
       = commit (loadData ''42'' (Fulfilled (ClientResult True (Some scenario_client) None))
           (Fulfilled (BranchesResult (Some scenario_branches) None))) initial"
proof -
  have h: "''42'' \<noteq> []" by simp
  show ?thesis
    using h loadData_requests_in_sequence [OF h,
        where cres = "Fulfilled (ClientResult True (Some scenario_client) None)"
          and bres = "Fulfilled (BranchesResult (Some scenario_branches) None)"]
    by blast
qed

text \<open>
  The claim as stated fails: once the effect has run, the record request alone is in
  flight, and a record request that rejects leaves the branches query unmade.
\<close>

theorem loadData_requests_in_sequence_counterexample:
  "awaiting (step (Effect (Some ''42'')) mounted) = [ClientRequest]
   \<and> BranchesRequest \<notin> set (awaiting (step (Effect (Some ''42'')) mounted))
   \<and> issued (trace [Effect (Some ''42''), ClientSettled (Rejected OtherValue)] mounted)
       = [ClientRequest]"
  by (simp add: step_def gone_def leaves_def mounted_def useEffect_def loadData_start_def loadData_catch_def
      issued_def)

section \<open>Submitting\<close>

text \<open>
  C10. A call of \<^verbatim>\<open>handleSubmit\<close> while no record is loaded (\<^verbatim>\<open>client\<close> is \<^verbatim>\<open>null\<close>) returns
  at once: it makes no call at all, so there is no validation, no update, no
  notification and no state change.
\<close>

theorem handleSubmit_without_client:
  assumes "client s = None"
  shows "handleSubmit s data = [] \<and> commit (handleSubmit s data) s = s"
  using assms by (simp add: handleSubmit_def commit_def)

theorem handleSubmit_without_client_witness:
  "client initial = None \<and> handleSubmit initial scenario_edit = []
   \<and> commit (handleSubmit initial scenario_edit) initial = initial"
proof -
  have h: "client initial = None" by (simp add: initial_def)
  show ?thesis
    using h handleSubmit_without_client [OF h, of scenario_edit] by blast
qed

text \<open>
  C2. A submit from Ready whose \<^verbatim>\<open>branchId\<close> is not the id of a loaded branch never calls
  the update, leaves the page in Ready with the same record and branches, and shows
  exactly one notification, an error.
\<close>

theorem handleSubmit_unknown_branch:
  assumes "render s = Ready c bs" and "\<not> is_member (read_prop data ''branchId'') bs"
  shows "update_calls (handleSubmit s data) = []
         \<and> render (commit (handleSubmit s data) s) = Ready c bs
         \<and> toasts (handleSubmit s data)
             = [Toast Destructive ''Error updating client''
                  (Some ''Selected branch does not exist'')]"
proof -
  from assms(1) have st: "client s = Some c" "branches s = bs" "\<not> isLoading s"
      "\<not> truthy (error s)"
    by (auto simp: render_def split: if_splits option.splits)
  from st assms(2) have run: "handleSubmit s data =
      [SetIsSubmitting True, ConsoleError, SetIsSubmitting False,
       Toast Destructive ''Error updating client'' (Some ''Selected branch does not exist'')]"
    by (simp add: handleSubmit_def handleSubmit_catch_def list_ex_member)
  have "render (commit (handleSubmit s data) s) = Ready c bs"
    using st by (simp add: run commit_simps render_def)
  then show ?thesis
    by (simp add: run update_calls_def toasts_def)
qed

theorem handleSubmit_unknown_branch_witness:
  "render scenario_ready = Ready scenario_client scenario_branches
   \<and> \<not> is_member (read_prop scenario_client ''branchId'') scenario_branches
   \<and> update_calls (handleSubmit scenario_ready scenario_client) = []
   \<and> render (commit (handleSubmit scenario_ready scenario_client) scenario_ready)
       = Ready scenario_client scenario_branches
   \<and> toasts (handleSubmit scenario_ready scenario_client)
       = [Toast Destructive ''Error updating client''
            (Some ''Selected branch does not exist'')]"
proof -
  have h1: "render scenario_ready = Ready scenario_client scenario_branches"
    by (simp add: scenario_ready_def render_def truthy_def)
  have h2: "\<not> is_member (read_prop scenario_client ''branchId'') scenario_branches"
    by (simp add: is_member_def read_prop_def scenario_client_def scenario_branches_def)
  show ?thesis
    using h1 h2 handleSubmit_unknown_branch [where data = scenario_client, OF h1 h2] by blast
qed

text \<open>
  C3, as amended. \<^verbatim>\<open>handleSubmit\<close> does not read \<^verbatim>\<open>isSubmitting\<close>. Called while the page is in
  Submitting, with a \<^verbatim>\<open>branchId\<close> among the loaded branches, it leaves the page in
  Submitting and calls the update again; the flag is only handed to the form.
\<close>

theorem handleSubmit_while_submitting:
  assumes "render s = Submitting c bs" and "is_member (read_prop data ''branchId'') bs"
  shows "handleSubmit s data
           = [SetIsSubmitting True,
              UpdateClient ((c ++ data)(''dateOfBirth'' \<mapsto> read_prop data ''dateOfBirth''))]
         \<and> render (commit (handleSubmit s data) s) = Submitting c bs"
proof -
  from assms(1) have st: "client s = Some c" "branches s = bs" "\<not> isLoading s"
      "\<not> truthy (error s)" "isSubmitting s"
    by (auto simp: render_def split: if_splits option.splits)
  from st assms(2) have run: "handleSubmit s data
      = [SetIsSubmitting True, UpdateClient ((c ++ data)(''dateOfBirth'' \<mapsto> read_prop data ''dateOfBirth''))]"
    by (simp add: handleSubmit_def list_ex_member)
  show ?thesis
    using st by (simp add: run commit_simps render_def)
qed

theorem handleSubmit_while_submitting_witness:
  "render (scenario_ready\<lparr>isSubmitting := True\<rparr>) = Submitting scenario_client scenario_branches
   \<and> is_member (read_prop scenario_edit ''branchId'') scenario_branches
   \<and> handleSubmit (scenario_ready\<lparr>isSubmitting := True\<rparr>) scenario_edit
       = [SetIsSubmitting True,
          UpdateClient ((scenario_client ++ scenario_edit)
            (''dateOfBirth'' \<mapsto> read_prop scenario_edit ''dateOfBirth''))]
   \<and> render (commit (handleSubmit (scenario_ready\<lparr>isSubmitting := True\<rparr>) scenario_edit)
         (scenario_ready\<lparr>isSubmitting := True\<rparr>))
       = Submitting scenario_client scenario_branches"
proof -
  have h1: "render (scenario_ready\<lparr>isSubmitting := True\<rparr>)
      = Submitting scenario_client scenario_branches"
    by (simp add: scenario_ready_def render_def truthy_def)
  have h2: "is_member (read_prop scenario_edit ''branchId'') scenario_branches"
    by (simp add: is_member_def read_prop_def scenario_edit_def scenario_branches_def)
  show ?thesis
    using h1 h2 handleSubmit_while_submitting [where data = scenario_edit, OF h1 h2] by blast
qed

text \<open>
  The claim as stated fails: after the scenario's load, a first submit puts the page in
  Submitting, and a second submit before the update has settled calls the update a
  second time.
\<close>

theorem handleSubmit_while_submitting_counterexample:
  "render (ui (after (scenario_load @ [Submit scenario_edit]) mounted))
     = Submitting scenario_client scenario_branches
   \<and> length (update_calls (react (Submit scenario_edit)
        (after (scenario_load @ [Submit scenario_edit]) mounted))) = 1
   \<and> awaiting (after (scenario_load @ [Submit scenario_edit, Submit scenario_edit]) mounted)
       = [UpdateRequest, UpdateRequest]"
proof -
  let ?n = "after (scenario_load @ [Submit scenario_edit]) mounted"
  have n: "?n = \<lparr>ui = scenario_ready\<lparr>isSubmitting := True\<rparr>, awaiting = [UpdateRequest],
      disposed = False\<rparr>"
    by (rule after_scenario_submit)
  have h: "handleSubmit (scenario_ready\<lparr>isSubmitting := True\<rparr>) scenario_edit
      = [SetIsSubmitting True,
         UpdateClient ((scenario_client ++ scenario_edit)
           (''dateOfBirth'' \<mapsto> read_prop scenario_edit ''dateOfBirth''))]"
    by (simp add: handleSubmit_def read_prop_def scenario_ready_def scenario_branches_def
        scenario_edit_def)
  have r: "length (update_calls (react (Submit scenario_edit) ?n)) = 1"
    by (simp add: n h update_calls_def)
  have "after (scenario_load @ [Submit scenario_edit, Submit scenario_edit]) mounted
      = step (Submit scenario_edit) ?n"
    by (simp add: after_def)
  then have a: "awaiting (after (scenario_load @ [Submit scenario_edit, Submit scenario_edit]) mounted)
      = [UpdateRequest, UpdateRequest]"
    by (simp add: step_def gone_def leaves_def n h issued_def)
  have v: "render (ui ?n) = Submitting scenario_client scenario_branches"
    by (simp add: n scenario_ready_def render_def truthy_def)
  from v r a show ?thesis by blast
qed

text \<open>
  C6. When the update resolves successfully on a page in Submitting, the continuation
  calls \<^verbatim>\<open>setIsSubmitting(false)\<close>, shows one success notification and navigates to the
  client list exactly once. With the navigation the page is gone: it is not shown in
  Ready again, and no later event changes its state.
\<close>

theorem updateClient_success:
  assumes "UpdateRequest \<in> set (awaiting n)" and "render (ui n) = Submitting c bs"
    and "u_success r"
  shows "react (UpdateSettled (Fulfilled r)) n
           = [SetIsSubmitting False,
              Toast Default ''Client updated'' (Some ''The client has been updated successfully''),
              Navigate ''/clients'']
         \<and> toasts (react (UpdateSettled (Fulfilled r)) n)
             = [Toast Default ''Client updated''
                  (Some ''The client has been updated successfully'')]
         \<and> navigations (react (UpdateSettled (Fulfilled r)) n) = [Navigate ''/clients'']
         \<and> disposed (step (UpdateSettled (Fulfilled r)) n)
         \<and> render (ui (step (UpdateSettled (Fulfilled r)) n)) = Submitting c bs
         \<and> ui (after es (step (UpdateSettled (Fulfilled r)) n))
             = ui (step (UpdateSettled (Fulfilled r)) n)"
proof -
  have run: "react (UpdateSettled (Fulfilled r)) n
      = [SetIsSubmitting False,
         Toast Default ''Client updated'' (Some ''The client has been updated successfully''),
         Navigate ''/clients'']"
    using assms(1,3) by simp
  have g: "gone (UpdateSettled (Fulfilled r)) n"
    by (simp add: gone_def leaves_def run del: react.simps)
  then have d: "disposed (step (UpdateSettled (Fulfilled r)) n)"
    and u: "ui (step (UpdateSettled (Fulfilled r)) n) = ui n"
    by (simp_all add: step_def del: react.simps)
  have "ui (after es (step (UpdateSettled (Fulfilled r)) n))
      = ui (step (UpdateSettled (Fulfilled r)) n)"
    using d by (rule after_disposed)
  then show ?thesis
    using d u assms(2) by (simp add: run toasts_def navigations_def del: react.simps)
qed

theorem updateClient_success_witness:
  "UpdateRequest \<in> set (awaiting (after (scenario_load @ [Submit scenario_edit]) mounted))
   \<and> render (ui (after (scenario_load @ [Submit scenario_edit]) mounted))
       = Submitting scenario_client scenario_branches
   \<and> u_success (UpdateResult True None)
   \<and> navigations (react (UpdateSettled (Fulfilled (UpdateResult True None)))
        (after (scenario_load @ [Submit scenario_edit]) mounted)) = [Navigate ''/clients'']
   \<and> disposed (step (UpdateSettled (Fulfilled (UpdateResult True None)))
        (after (scenario_load @ [Submit scenario_edit]) mounted))
   \<and> render (ui (step (UpdateSettled (Fulfilled (UpdateResult True None)))
        (after (scenario_load @ [Submit scenario_edit]) mounted)))
       = Submitting scenario_client scenario_branches
   \<and> ui (after [Submit scenario_edit, UpdateSettled (Fulfilled (UpdateResult False None))]
        (step (UpdateSettled (Fulfilled (UpdateResult True None)))
          (after (scenario_load @ [Submit scenario_edit]) mounted)))
       = ui (step (UpdateSettled (Fulfilled (UpdateResult True None)))
          (after (scenario_load @ [Submit scenario_edit]) mounted))"
proof -
  let ?n = "after (scenario_load @ [Submit scenario_edit]) mounted"
  have h1: "UpdateRequest \<in> set (awaiting ?n)"
    by (simp add: after_scenario_submit)
  have h2: "render (ui ?n) = Submitting scenario_client scenario_branches"
    by (simp add: after_scenario_submit scenario_ready_def render_def truthy_def)
  have h3: "u_success (UpdateResult True None)" by simp
  show ?thesis
    using h1 h2 h3
      updateClient_success [OF h1 h2 h3,
        where es = "[Submit scenario_edit, UpdateSettled (Fulfilled (UpdateResult False None))]"]
    by blast
qed

section \<open>Unmounting\<close>

text \<open>
  C8, as amended. Unmounting changes nothing for a request in flight: the page is
  disposed, and when the request settles afterwards its continuation makes the same
  calls (setters, notifications, navigation) as it would on the mounted page.
\<close>

theorem result_after_unmount:
  assumes "settles e \<noteq> []"
  shows "disposed (step Unmount n) \<and> react e (step Unmount n) = react e n"
  using assms by (cases e) (simp_all add: step_def gone_def leaves_def issued_def)

theorem result_after_unmount_witness:
  "settles (UpdateSettled (Fulfilled (UpdateResult True None))) \<noteq> []
   \<and> disposed (step Unmount (after (scenario_load @ [Submit scenario_edit]) mounted))
   \<and> react (UpdateSettled (Fulfilled (UpdateResult True None)))
        (step Unmount (after (scenario_load @ [Submit scenario_edit]) mounted))
       = [SetIsSubmitting False,
          Toast Default ''Client updated'' (Some ''The client has been updated successfully''),
          Navigate ''/clients'']"
proof -
  have h: "settles (UpdateSettled (Fulfilled (UpdateResult True None))) \<noteq> []" by simp
  have "react (UpdateSettled (Fulfilled (UpdateResult True None)))
          (after (scenario_load @ [Submit scenario_edit]) mounted)
      = [SetIsSubmitting False,
         Toast Default ''Client updated'' (Some ''The client has been updated successfully''),
         Navigate ''/clients'']"
    by (simp add: after_scenario_submit)
  then show ?thesis
    using h result_after_unmount [OF h, of "after (scenario_load @ [Submit scenario_edit]) mounted"]
    by simp
qed

text \<open>
  The claim as stated fails: the user leaves while the load awaits the branches query;
  the query then resolves with no row, and the continuation still calls the setters and
  shows the warning. Likewise a late successful update still shows its notification and
  navigates.
\<close>

theorem result_after_unmount_counterexample:
  "disposed (after [Effect (Some ''42''),
       ClientSettled (Fulfilled (ClientResult True (Some scenario_client) None)), Unmount] mounted)
   \<and> react (BranchesSettled (Fulfilled (BranchesResult (Some []) None)))
       (after [Effect (Some ''42''),
          ClientSettled (Fulfilled (ClientResult True (Some scenario_client) None)), Unmount] mounted)
     = [SetBranches fallback_branches,
        Toast Warning ''Using mock branch data'' (Some ''No active branches found in the database''),
        SetIsLoading False]
   \<and> navigations (react (UpdateSettled (Fulfilled (UpdateResult True None)))
       (after (scenario_load @ [Submit scenario_edit, Unmount]) mounted))
     = [Navigate ''/clients'']"
proof -
  have "after (scenario_load @ [Submit scenario_edit, Unmount]) mounted
      = step Unmount (after (scenario_load @ [Submit scenario_edit]) mounted)"
    by (simp add: after_def)
  then have "navigations (react (UpdateSettled (Fulfilled (UpdateResult True None)))
       (after (scenario_load @ [Submit scenario_edit, Unmount]) mounted))
     = [Navigate ''/clients'']"
    by (simp add: after_scenario_submit step_def gone_def leaves_def issued_def navigations_def)
  then show ?thesis
    by (simp add: after_def mounted_def step_def gone_def leaves_def useEffect_def loadData_start_def issued_def)
qed

end
